theory Spec2Isabelle
  imports Complex_Main
begin

section \<open>Data model\<close>

text \<open>
  The notebook reads the \<open>Pressure\<close> variable of a NUCAPS granule, a float32 array.
  A float32 is either a finite value, which is a rational number, or one of the three
  non-finite values (a fill value of the file arrives as NaN).
\<close>

datatype float32 = Finite rat | NaN | PosInf | NegInf

text \<open>
  The Python exceptions the modelled cells can raise: \<open>KeyError\<close> from the subscript
  \<open>PresLevIndex[...]\<close> and \<open>ValueError\<close> from \<open>reshape\<close>. The specification
  calls them \<open>LevelNotFound\<close> and \<open>ShapeMismatch\<close>. \<open>IndexError\<close> is what reading
  an array outside its shape raises.
\<close>

datatype error = KeyError | ValueError | IndexError

abbreviation LevelNotFound :: error where
  "LevelNotFound \<equiv> KeyError"

abbreviation ShapeMismatch :: error where
  "ShapeMismatch \<equiv> ValueError"

text \<open>
  The two global variables that the dictionary cell assigns. A cell of a notebook runs
  on whatever an earlier run left in them.
\<close>

record notebook =
  pressureLevs :: "int list"
  PresLevIndex :: "int \<rightharpoonup> nat"

section \<open>The pressure-level dictionary\<close>

text \<open>
  \<^verbatim>\<open>pressureLevs = np.array(nucaps.sel(Number_of_CrIS_FORs=0).Pressure.values, dtype='i4')\<close>

  \<open>np.array(..., dtype='i4')\<close> converts each float32 to a 32-bit integer with the
  C cast, which discards the fractional part (truncation toward zero). The cast raises
  nothing. For NaN, an infinity or a value whose integral part does not fit 32 bits, C
  leaves the result open; numpy on x86-64 yields the least 32-bit integer, which is what
  \<open>astype_i4\<close> returns there. No theorem below depends on that particular value.
\<close>

definition trunc :: "rat \<Rightarrow> int" where
  "trunc q = (if 0 \<le> q then \<lfloor>q\<rfloor> else \<lceil>q\<rceil>)"

definition i4_min :: int where
  "i4_min = - (2 ^ 31)"

definition in_i4 :: "int \<Rightarrow> bool" where
  "in_i4 t = (- (2 ^ 31) \<le> t \<and> t < 2 ^ 31)"

fun astype_i4 :: "float32 \<Rightarrow> int" where
  "astype_i4 (Finite q) = (if in_i4 (trunc q) then trunc q else i4_min)"
| "astype_i4 NaN = i4_min"
| "astype_i4 PosInf = i4_min"
| "astype_i4 NegInf = i4_min"

text \<open>
  \<^verbatim>\<open>for i, plev in enumerate(pressureLevs):
      PresLevIndex.update( {plev : i} )\<close>

  The loop over the enumerated levels, on the dictionary it updates.
\<close>

fun update_loop :: "(nat \<times> int) list \<Rightarrow> (int \<rightharpoonup> nat) \<Rightarrow> (int \<rightharpoonup> nat)" where
  "update_loop [] d = d"
| "update_loop ((i, plev) # rest) d = update_loop rest (d(plev \<mapsto> i))"

text \<open>
  The whole cell: it assigns \<open>pressureLevs\<close>, resets \<open>PresLevIndex\<close> to the empty
  dictionary and runs the loop. The argument \<open>Pressure\<close> is the pressure profile of the
  first field of regard.
\<close>

definition dictionary_cell :: "float32 list \<Rightarrow> notebook \<Rightarrow> notebook" where
  "dictionary_cell Pressure nb =
     (let nb1 = nb\<lparr>pressureLevs := map astype_i4 Pressure\<rparr>;
          nb2 = nb1\<lparr>PresLevIndex := Map.empty\<rparr>
      in nb2\<lparr>PresLevIndex := update_loop (enumerate 0 (pressureLevs nb2)) (PresLevIndex nb2)\<rparr>)"

text \<open>
  The operation \<open>buildLevelIndex\<close> of the specification is this cell, seen as a
  function from the levels to the dictionary. No statement of the cell raises.
\<close>

definition buildLevelIndex :: "float32 list \<Rightarrow> notebook \<Rightarrow> error + (int \<rightharpoonup> nat)" where
  "buildLevelIndex levels nb = Inr (PresLevIndex (dictionary_cell levels nb))"

text \<open>A notebook in which the cell has not run yet.\<close>

definition fresh :: notebook where
  "fresh = \<lparr>pressureLevs = [], PresLevIndex = Map.empty\<rparr>"

section \<open>Selecting a level\<close>

text \<open>
  \<^verbatim>\<open>griddedView = nucaps.sel(Number_of_P_Levels=PresLevIndex[496])\<close>

  The subscript of a Python dictionary: the stored value when the key is present,
  \<open>KeyError\<close> otherwise. The subscript computes nothing from its argument, and no cell
  of the notebook rounds a pressure: the notebook reads the available levels off the
  keys and writes 496 itself. Python compares and hashes numbers by value, so the int
  \<open>496\<close> and the float \<open>496.0\<close> are the same key, and a float with a fractional part
  is equal to no integer key. The target is a Python number, an int or a finite float,
  that is a rational. This is the operation \<open>nearestLevelIndex\<close> of the
  specification.
\<close>

definition nearestLevelIndex :: "(int \<rightharpoonup> nat) \<Rightarrow> rat \<Rightarrow> error + nat" where
  "nearestLevelIndex index target =
     (if target = of_int \<lfloor>target\<rfloor>
      then (case index \<lfloor>target\<rfloor> of None \<Rightarrow> Inl KeyError | Some i \<Rightarrow> Inr i)
      else Inl KeyError)"

section \<open>Repeating a coordinate\<close>

text \<open>
  \<^verbatim>\<open>repeatFORs = np.repeat(nucaps['CrIS_FORs'].values, 100).reshape(120,100)\<close>

  A two-dimensional numpy array is a shape and a buffer in row-major order.
  \<open>np.repeat\<close> repeats each element in place; \<open>reshape\<close> keeps the buffer and raises
  \<open>ValueError\<close> when the new shape does not hold exactly as many elements. The counts
  are natural numbers.
\<close>

record 'a ndarray =
  shape :: "nat \<times> nat"
  data :: "'a list"

definition np_repeat :: "'a list \<Rightarrow> nat \<Rightarrow> 'a list" where
  "np_repeat a repeats = concat (map (replicate repeats) a)"

definition reshape :: "'a list \<Rightarrow> nat \<times> nat \<Rightarrow> error + 'a ndarray" where
  "reshape a newshape =
     (if length a = fst newshape * snd newshape
      then Inr \<lparr>shape = newshape, data = a\<rparr>
      else Inl ValueError)"

text \<open>The entry \<open>a[i, j]\<close> of a two-dimensional array.\<close>

definition getitem :: "'a ndarray \<Rightarrow> nat \<Rightarrow> nat \<Rightarrow> error + 'a" where
  "getitem a i j =
     (if i < fst (shape a) \<and> j < snd (shape a)
      then Inr (data a ! (i * snd (shape a) + j))
      else Inl IndexError)"

text \<open>
  The operation \<open>broadcastCoordinate\<close> of the specification is the cell above with the
  literals \<open>100\<close> and \<open>120\<close> as the parameters \<open>levelCount\<close> and \<open>profileCount\<close>.
\<close>

definition broadcastCoordinate :: "'a list \<Rightarrow> nat \<Rightarrow> nat \<Rightarrow> error + 'a ndarray" where
  "broadcastCoordinate coordinate levelCount profileCount =
     reshape (np_repeat coordinate levelCount) (profileCount, levelCount)"

section \<open>Filtering by quality\<close>

text \<open>
  \<^verbatim>\<open>griddedViewAll = griddedViewAll.where(griddedViewAll['Quality_Flag'] == 0, drop=True)\<close>

  After the selection of one pressure level every variable of the dataset has one value
  per profile, so the dataset is a list of profiles: the quality flag and the other
  variables of the profile.
\<close>

record 'v profile =
  Quality_Flag :: int
  variables :: 'v

text \<open>
  \<open>where\<close> with \<open>drop=True\<close> works in two steps. It first keeps the positions at which
  the condition holds somewhere (for a condition along one dimension: the positions at
  which it holds), in their order; it then masks, at the positions that are left, every
  value at which the condition is false. A masked profile is \<open>None\<close>. The condition
  is computed from the dataset, so the two have one entry per profile.
\<close>

definition where_drop :: "bool list \<Rightarrow> 'a list \<Rightarrow> 'a option list" where
  "where_drop cond ds =
     (let indexer = filter (\<lambda>i. cond ! i) [0..<length cond];
          clipped = map (\<lambda>i. ds ! i) indexer;
          clipcond = map (\<lambda>i. cond ! i) indexer
      in map (\<lambda>(d, c). if c then Some d else None) (zip clipped clipcond))"

text \<open>
  The quality filter of the specification: the cell above with the literal \<open>0\<close> as the
  parameter \<open>flag\<close>.
\<close>

definition quality_filter :: "int \<Rightarrow> 'v profile list \<Rightarrow> 'v profile option list" where
  "quality_filter flag griddedViewAll =
     where_drop (map (\<lambda>p. Quality_Flag p = flag) griddedViewAll) griddedViewAll"

section \<open>Properties of the loop\<close>

text \<open>The cast is unfolded only where a proof asks for it.\<close>

lemmas astype_i4_simps = astype_i4.simps

declare astype_i4.simps [simp del]

lemma update_loop_append:
  "update_loop (ps @ qs) d = update_loop qs (update_loop ps d)"
  by (induction ps arbitrary: d) auto

lemma enumerate_snoc:
  "enumerate n (ks @ [k]) = enumerate n ks @ [(n + length ks, k)]"
  by (induction ks arbitrary: n) simp_all

lemma update_loop_snoc:
  "update_loop (enumerate 0 (ks @ [k])) d = (update_loop (enumerate 0 ks) d)(k \<mapsto> length ks)"
  by (simp add: enumerate_snoc update_loop_append)

lemma dom_update_loop:
  "dom (update_loop (enumerate 0 ks) d) = dom d \<union> set ks"
proof (induction ks rule: rev_induct)
  case Nil
  show ?case by simp
next
  case (snoc k ks)
  have "dom (update_loop (enumerate 0 (ks @ [k])) d) =
      insert k (dom (update_loop (enumerate 0 ks) d))"
    by (simp only: update_loop_snoc dom_fun_upd) simp
  with snoc show ?case by auto
qed

lemma PresLevIndex_dictionary_cell:
  "PresLevIndex (dictionary_cell levels nb) =
     update_loop (enumerate 0 (map astype_i4 levels)) Map.empty"
  by (simp add: dictionary_cell_def)

lemma dom_dictionary_cell:
  "dom (PresLevIndex (dictionary_cell levels nb)) = astype_i4 ` set levels"
  by (simp add: PresLevIndex_dictionary_cell dom_update_loop)

text \<open>
  What the loop leaves under a key: the last position of the key among the enumerated
  levels.
\<close>

lemma update_loop_lookup:
  "update_loop (enumerate 0 ks) Map.empty k = Some i \<longleftrightarrow>
     i < length ks \<and> ks ! i = k \<and> (\<forall>j. i < j \<and> j < length ks \<longrightarrow> ks ! j \<noteq> k)"
proof (induction ks rule: rev_induct)
  case Nil
  show ?case by simp
next
  case (snoc x ks)
  show ?case
  proof (cases "k = x")
    case True
    have "i < length ks \<Longrightarrow> \<exists>j. i < j \<and> j < Suc (length ks) \<and> (ks @ [x]) ! j = x"
      by (rule exI [of _ "length ks"]) simp
    then show ?thesis
      using True by (auto simp: update_loop_snoc nth_append less_Suc_eq)
  next
    case False
    then show ?thesis
      using snoc by (auto simp: update_loop_snoc nth_append less_Suc_eq)
  qed
qed

lemma dictionary_cell_lookup:
  "PresLevIndex (dictionary_cell levels nb) k = Some i \<longleftrightarrow>
     i < length levels \<and> astype_i4 (levels ! i) = k \<and>
     (\<forall>j. i < j \<and> j < length levels \<longrightarrow> astype_i4 (levels ! j) \<noteq> k)"
proof -
  have "i < length levels \<Longrightarrow>
      (\<forall>j. i < j \<and> j < length levels \<longrightarrow> map astype_i4 levels ! j \<noteq> k) \<longleftrightarrow>
      (\<forall>j. i < j \<and> j < length levels \<longrightarrow> astype_i4 (levels ! j) \<noteq> k)"
    by auto
  then show ?thesis
    by (auto simp: PresLevIndex_dictionary_cell update_loop_lookup)
qed

lemma dictionary_cell_present:
  assumes "i < length levels"
  shows "\<exists>p. PresLevIndex (dictionary_cell levels nb) (astype_i4 (levels ! i)) = Some p"
proof -
  have "astype_i4 (levels ! i) \<in> dom (PresLevIndex (dictionary_cell levels nb))"
    using assms by (simp add: dom_dictionary_cell)
  then show ?thesis by blast
qed

lemma last_position_Max:
  fixes i n :: nat and k :: int
  assumes "i < n" and "key i = k" and "\<forall>j. i < j \<and> j < n \<longrightarrow> key j \<noteq> k"
  shows "Max {p. p < n \<and> key p = k} = i"
proof (rule Max_eqI)
  show "finite {p. p < n \<and> key p = k}" by simp
  show "i \<in> {p. p < n \<and> key p = k}" using assms by simp
  fix y assume "y \<in> {p. p < n \<and> key p = k}"
  then have "y < n" "key y = k" by simp_all
  with assms(3) have "\<not> i < y" by blast
  then show "y \<le> i" by simp
qed

text \<open>The cast of a level that is a whole number of millibars.\<close>

lemma astype_i4_whole:
  "astype_i4 (Finite 1000) = 1000" "astype_i4 (Finite 850) = 850"
  "astype_i4 (Finite 504) = 504" "astype_i4 (Finite 500) = 500"
  "astype_i4 (Finite 496) = 496" "astype_i4 (Finite 300) = 300"
  by (simp_all add: astype_i4_simps trunc_def in_i4_def)

text \<open>The cast and the rounding of levels between two whole numbers.\<close>

lemma astype_i4_fraction:
  "astype_i4 (Finite (1987 / 4)) = 496" "astype_i4 (Finite (1989 / 4)) = 497"
  "astype_i4 (Finite (1999 / 4)) = 499" "astype_i4 (Finite (2001 / 4)) = 500"
  "trunc (1987 / 4) = 496"
  by code_simp+

lemma round_fraction:
  "round (1987 / 4 :: rat) = 497" "round (1989 / 4 :: rat) = 497"
  "round (1999 / 4 :: rat) = 500" "round (2001 / 4 :: rat) = 500"
  by code_simp+

text \<open>
  \<open>trunc\<close> is truncation toward zero: it never moves away from zero and it moves by
  less than one.
\<close>

lemma trunc_toward_zero:
  "\<bar>of_int (trunc q)\<bar> \<le> \<bar>q\<bar> \<and> \<bar>q - of_int (trunc q)\<bar> < 1"
proof (cases "0 \<le> q")
  case True
  define c :: rat where "c = of_int \<lfloor>q\<rfloor>"
  have "c \<le> q" "q < c + 1" unfolding c_def by linarith+
  moreover from True have "0 \<le> c" unfolding c_def by simp
  ultimately have "\<bar>c\<bar> \<le> \<bar>q\<bar>" "\<bar>q - c\<bar> < 1" by linarith+
  moreover have "of_int (trunc q) = c" using True by (simp add: trunc_def c_def)
  ultimately show ?thesis by simp
next
  case False
  define c :: rat where "c = of_int \<lceil>q\<rceil>"
  have "c - 1 < q" "q \<le> c" unfolding c_def by linarith+
  moreover from False have "\<lceil>q\<rceil> \<le> 0" by simp
  then have "c \<le> 0" unfolding c_def by simp
  ultimately have "\<bar>c\<bar> \<le> \<bar>q\<bar>" "\<bar>q - c\<bar> < 1" by linarith+
  moreover have "of_int (trunc q) = c" using False by (simp add: trunc_def c_def)
  ultimately show ?thesis by simp
qed

section \<open>Properties of the array operations\<close>

lemma length_np_repeat: "length (np_repeat a n) = length a * n"
  by (induction a) (simp_all add: np_repeat_def)

lemma nth_np_repeat:
  "i < length a \<Longrightarrow> j < n \<Longrightarrow> np_repeat a n ! (i * n + j) = a ! i"
proof (induction a arbitrary: i)
  case Nil
  then show ?case by simp
next
  case (Cons x a)
  show ?case
  proof (cases i)
    case 0
    with Cons.prems show ?thesis by (simp add: np_repeat_def nth_append)
  next
    case (Suc i')
    with Cons.prems have "i' < length a" by simp
    from Cons.IH [OF this \<open>j < n\<close>] Suc show ?thesis
      by (simp add: np_repeat_def nth_append)
  qed
qed

lemma clip_indexer:
  "map (\<lambda>i. ds ! i) (filter (\<lambda>i. map c ds ! i) [0..<length ds]) = filter c ds"
proof (induction ds rule: rev_induct)
  case Nil
  show ?case by simp
next
  case (snoc x ds)
  have "filter (\<lambda>i. map c (ds @ [x]) ! i) [0..<length ds] =
      filter (\<lambda>i. map c ds ! i) [0..<length ds]"
    by (rule filter_cong) (auto simp: nth_append)
  moreover have "map (\<lambda>i. (ds @ [x]) ! i) (filter (\<lambda>i. map c ds ! i) [0..<length ds]) =
      map (\<lambda>i. ds ! i) (filter (\<lambda>i. map c ds ! i) [0..<length ds])"
    by (rule map_cong) (auto simp: nth_append)
  ultimately show ?case
    using snoc by (simp add: nth_append)
qed

lemma where_drop_filter:
  "where_drop (map c ds) ds = map Some (filter c ds)"
proof -
  let ?ix = "filter (\<lambda>i. map c ds ! i) [0..<length ds]"
  have "map (\<lambda>(d, b). if b then Some d else None)
          (zip (map (\<lambda>i. ds ! i) ?ix) (map (\<lambda>i. map c ds ! i) ?ix)) =
        map (\<lambda>i. if map c ds ! i then Some (ds ! i) else None) ?ix"
    by (simp add: zip_map_map zip_same_conv_map comp_def)
  also have "\<dots> = map (\<lambda>i. Some (ds ! i)) ?ix"
    by (rule map_cong) auto
  also have "\<dots> = map Some (map (\<lambda>i. ds ! i) ?ix)"
    by simp
  finally show ?thesis
    by (simp only: where_drop_def Let_def clip_indexer length_map)
qed

lemma quality_filter_filter:
  "quality_filter flag swath = map Some (filter (\<lambda>p. Quality_Flag p = flag) swath)"
  unfolding quality_filter_def by (rule where_drop_filter)

section \<open>Properties of the subscript\<close>

lemma nearestLevelIndex_of_int:
  "nearestLevelIndex index (of_int k) =
     (case index k of None \<Rightarrow> Inl KeyError | Some i \<Rightarrow> Inr i)"
  by (simp add: nearestLevelIndex_def)

lemma nearestLevelIndex_Inr_iff:
  "nearestLevelIndex index target = Inr i \<longleftrightarrow> (\<exists>k. target = of_int k \<and> index k = Some i)"
proof
  assume a: "nearestLevelIndex index target = Inr i"
  then have t: "target = of_int \<lfloor>target\<rfloor>"
    by (auto simp: nearestLevelIndex_def split: if_splits)
  with a have "index \<lfloor>target\<rfloor> = Some i"
    by (auto simp: nearestLevelIndex_def split: if_splits option.splits)
  with t show "\<exists>k. target = of_int k \<and> index k = Some i" by blast
next
  assume "\<exists>k. target = of_int k \<and> index k = Some i"
  then show "nearestLevelIndex index target = Inr i"
    by (auto simp: nearestLevelIndex_of_int)
qed

lemma nearestLevelIndex_Inl_iff:
  "nearestLevelIndex index target = Inl LevelNotFound \<longleftrightarrow>
     (\<forall>k. target = of_int k \<longrightarrow> k \<notin> dom index)"
proof (cases "target = of_int \<lfloor>target\<rfloor>")
  case True
  then obtain k where k: "target = of_int k" ..
  show ?thesis
    unfolding k by (auto simp: nearestLevelIndex_of_int split: option.splits)
next
  case False
  then have "target \<noteq> of_int k" for k by auto
  with False show ?thesis
    by (simp add: nearestLevelIndex_def)
qed

text \<open>The level 496.25 is no whole number, and it rounds to 496.\<close>

lemma quarter_above_496:
  "(1985 / 4 :: rat) \<noteq> of_int \<lfloor>1985 / 4 :: rat\<rfloor>" "round (1985 / 4 :: rat) = 496"
  by code_simp+

lemma nearestLevelIndex_quarter_above_496:
  "nearestLevelIndex index (1985 / 4) = Inl KeyError"
  by (simp only: nearestLevelIndex_def quarter_above_496 if_False)

section \<open>Claims\<close>

subsection \<open>Selecting a level\<close>

text \<open>
  C1, counterexample: the specification has \<open>nearestLevelIndex\<close> return the stored
  index whenever the rounded target is a key. The target 496.25 rounds to 496, which is
  a key with the index 74, and the subscript raises \<open>KeyError\<close>: it does not round.
\<close>

theorem nearestLevelIndex_rounding_counterexample:
  "nearestLevelIndex [496 \<mapsto> 74] (1985 / 4) = Inl LevelNotFound \<and>
   round (1985 / 4 :: rat) = 496 \<and>
   ([496 \<mapsto> 74] :: int \<rightharpoonup> nat) (round (1985 / 4 :: rat)) = Some 74"
  by (simp add: nearestLevelIndex_quarter_above_496 quarter_above_496)

text \<open>
  C1 (amended): \<open>nearestLevelIndex\<close> looks the target itself up as an exact key, with
  no rounding and no search by distance. It returns an index exactly when the target is
  equal to a key, and then the index stored under that key; it fails with
  \<open>LevelNotFound\<close> exactly when the target is equal to no key. In particular it fails
  whenever the rounded target is not a key, and it also fails when the rounded target
  is a key but the target is not, or when levels close to the target are keys: in the
  index built from the levels 504 and 496 neither the target 500 nor the target 496.25
  is found.
\<close>

theorem nearestLevelIndex_exact_key:
  "(nearestLevelIndex index target = Inr i \<longleftrightarrow>
      (\<exists>k. target = of_int k \<and> index k = Some i)) \<and>
   (nearestLevelIndex index target = Inl LevelNotFound \<longleftrightarrow>
      (\<forall>k. target = of_int k \<longrightarrow> k \<notin> dom index)) \<and>
   (round target \<notin> dom index \<longrightarrow> nearestLevelIndex index target = Inl LevelNotFound) \<and>
   (\<exists>m. buildLevelIndex [Finite 504, Finite 496] nb = Inr m \<and>
      504 \<in> dom m \<and> 496 \<in> dom m \<and>
      nearestLevelIndex m 500 = Inl LevelNotFound \<and>
      round (1985 / 4 :: rat) \<in> dom m \<and>
      nearestLevelIndex m (1985 / 4) = Inl LevelNotFound)"
proof -
  have r: "nearestLevelIndex index target = Inl LevelNotFound"
    if "round target \<notin> dom index"
  proof -
    have "k \<notin> dom index" if "target = of_int k" for k
      using \<open>round target \<notin> dom index\<close> that by simp
    then show ?thesis
      by (simp add: nearestLevelIndex_Inl_iff)
  qed
  have "buildLevelIndex [Finite 504, Finite 496] nb = Inr [504 \<mapsto> 0, 496 \<mapsto> 1]"
    by (simp add: buildLevelIndex_def PresLevIndex_dictionary_cell astype_i4_whole)
  moreover have "nearestLevelIndex [504 \<mapsto> 0, 496 \<mapsto> 1] 500 = Inl LevelNotFound"
    by (simp add: nearestLevelIndex_def)
  moreover have "nearestLevelIndex [504 \<mapsto> 0, 496 \<mapsto> 1] (1985 / 4) = Inl LevelNotFound"
    by (rule nearestLevelIndex_quarter_above_496)
  ultimately have
    "\<exists>m. buildLevelIndex [Finite 504, Finite 496] nb = Inr m \<and>
      504 \<in> dom m \<and> 496 \<in> dom m \<and>
      nearestLevelIndex m 500 = Inl LevelNotFound \<and>
      round (1985 / 4 :: rat) \<in> dom m \<and>
      nearestLevelIndex m (1985 / 4) = Inl LevelNotFound"
    by (simp add: quarter_above_496)
  with r show ?thesis
    by (simp only: nearestLevelIndex_Inr_iff nearestLevelIndex_Inl_iff) blast
qed

text \<open>
  C1, witness: in an index that holds the key 496 only, the target 496 is found, and
  the target 500, whose rounding is no key, is not.
\<close>

theorem nearestLevelIndex_exact_key_witness:
  "nearestLevelIndex [496 \<mapsto> 74] 496 = Inr 74 \<and>
   round (500 :: rat) \<notin> dom ([496 \<mapsto> 74] :: int \<rightharpoonup> nat) \<and>
   nearestLevelIndex [496 \<mapsto> 74] 500 = Inl LevelNotFound"
proof -
  have k: "\<exists>k. (496 :: rat) = of_int k \<and> ([496 \<mapsto> 74] :: int \<rightharpoonup> nat) k = Some 74"
    by (rule exI [of _ 496]) simp
  have n: "round (500 :: rat) \<notin> dom ([496 \<mapsto> 74] :: int \<rightharpoonup> nat)"
    by simp
  from nearestLevelIndex_exact_key [where index = "[496 \<mapsto> 74]" and target = 496 and i = 74] k
  have "nearestLevelIndex [496 \<mapsto> 74] 496 = Inr 74" by blast
  moreover
  from nearestLevelIndex_exact_key [where index = "[496 \<mapsto> 74]" and target = 500] n
  have "nearestLevelIndex [496 \<mapsto> 74] 500 = Inl LevelNotFound" by blast
  ultimately show ?thesis using n by blast
qed

subsection \<open>Building the index\<close>

text \<open>
  C2, counterexample: the specification has the keys rounded to the nearest integer. The
  level 496.75 rounds to 497, and the cell files it under the key 496.
\<close>

theorem buildLevelIndex_rounding_counterexample:
  "buildLevelIndex [Finite (1987 / 4)] fresh = Inr [496 \<mapsto> 0] \<and>
   round (1987 / 4 :: rat) = 497 \<and> 497 \<notin> dom ([496 \<mapsto> 0] :: int \<rightharpoonup> nat)"
  by (simp add: buildLevelIndex_def PresLevIndex_dictionary_cell astype_i4_fraction
      round_fraction)

text \<open>
  C2 (amended): the keys of the mapping that \<open>buildLevelIndex\<close> returns are exactly the
  values obtained by converting each level to a 32-bit integer, which for a finite level
  within the 32-bit range is its truncation toward zero; each key records an index at
  which a level with that converted value occurs.
\<close>

theorem buildLevelIndex_keys_truncated:
  "\<exists>m. buildLevelIndex levels nb = Inr m \<and> dom m = astype_i4 ` set levels \<and>
     (\<forall>k i. m k = Some i \<longrightarrow> i < length levels \<and> astype_i4 (levels ! i) = k) \<and>
     (\<forall>q. in_i4 (trunc q) \<longrightarrow> astype_i4 (Finite q) = trunc q)"
  by (simp add: buildLevelIndex_def dom_dictionary_cell dictionary_cell_lookup
      astype_i4_simps)

text \<open>
  C2, witness: the level 496.75 alone gives the single key 496, its truncation, with the
  index 0.
\<close>

theorem buildLevelIndex_keys_truncated_witness:
  "\<exists>m. buildLevelIndex [Finite (1987 / 4)] fresh = Inr m \<and> dom m = {496} \<and>
     m 496 = Some 0 \<and> astype_i4 ([Finite (1987 / 4)] ! 0) = 496 \<and> trunc (1987 / 4) = 496"
proof -
  have b: "buildLevelIndex [Finite (1987 / 4)] fresh = Inr [496 \<mapsto> 0]"
    by (simp add: buildLevelIndex_def PresLevIndex_dictionary_cell astype_i4_fraction)
  from buildLevelIndex_keys_truncated [of "[Finite (1987 / 4)]" fresh]
  obtain m where m: "buildLevelIndex [Finite (1987 / 4)] fresh = Inr m"
    "dom m = astype_i4 ` set [Finite (1987 / 4)]"
    "\<forall>k i. m k = Some i \<longrightarrow>
       i < length [Finite (1987 / 4)] \<and> astype_i4 ([Finite (1987 / 4)] ! i) = k"
    "\<forall>q. in_i4 (trunc q) \<longrightarrow> astype_i4 (Finite q) = trunc q"
    by blast
  from m(1) b have "m = [496 \<mapsto> 0]" by simp
  then have l: "m 496 = Some 0" by simp
  with m(3) have "astype_i4 ([Finite (1987 / 4)] ! 0) = 496" by blast
  moreover have "in_i4 (trunc (1987 / 4))"
    by (simp add: astype_i4_fraction in_i4_def)
  with m(4) have "astype_i4 (Finite (1987 / 4)) = trunc (1987 / 4)" by blast
  ultimately show ?thesis
    using m(1,2) l by (simp add: astype_i4_fraction)
qed

text \<open>
  C3, counterexample: the levels 497.25 and 496.75 have the same rounded value 497, at
  the positions 0 and 1. The specification sends the key 497 to the position 1; the cell
  sends it to the position 0, and the position 1 is filed under 496.
\<close>

theorem buildLevelIndex_duplicates_counterexample:
  "buildLevelIndex [Finite (1989 / 4), Finite (1987 / 4)] fresh =
     Inr [497 \<mapsto> 0, 496 \<mapsto> 1] \<and>
   round (1989 / 4 :: rat) = 497 \<and> round (1987 / 4 :: rat) = 497 \<and>
   ([497 \<mapsto> 0, 496 \<mapsto> 1] :: int \<rightharpoonup> nat) 497 \<noteq> Some 1"
  by (simp add: buildLevelIndex_def PresLevIndex_dictionary_cell astype_i4_fraction
      round_fraction)

text \<open>
  C3 (amended): the last write wins among the levels with the same converted value (the
  32-bit integer that the cell makes of a level): the mapping sends the converted value
  of every level to the largest position with that converted value. For the levels
  500, 500, 496 the key 500 maps to the index 1 and the key 496 to the index 2.
\<close>

theorem buildLevelIndex_last_write_wins:
  "(\<exists>m. buildLevelIndex levels nb = Inr m \<and>
      (\<forall>i. i < length levels \<longrightarrow>
         m (astype_i4 (levels ! i)) =
           Some (Max {p. p < length levels \<and>
                         astype_i4 (levels ! p) = astype_i4 (levels ! i)}))) \<and>
   buildLevelIndex [Finite 500, Finite 500, Finite 496] nb = Inr [500 \<mapsto> 1, 496 \<mapsto> 2]"
proof -
  have "PresLevIndex (dictionary_cell levels nb) (astype_i4 (levels ! i)) =
      Some (Max {p. p < length levels \<and> astype_i4 (levels ! p) = astype_i4 (levels ! i)})"
    if "i < length levels" for i
  proof -
    from dictionary_cell_present [OF that] obtain p
      where p: "PresLevIndex (dictionary_cell levels nb) (astype_i4 (levels ! i)) = Some p"
      by blast
    then have "p < length levels" "astype_i4 (levels ! p) = astype_i4 (levels ! i)"
      "\<forall>j. p < j \<and> j < length levels \<longrightarrow> astype_i4 (levels ! j) \<noteq> astype_i4 (levels ! i)"
      by (simp_all add: dictionary_cell_lookup)
    then have
      "Max {q. q < length levels \<and> astype_i4 (levels ! q) = astype_i4 (levels ! i)} = p"
      by (rule last_position_Max)
    with p show ?thesis by simp
  qed
  moreover have
    "buildLevelIndex [Finite 500, Finite 500, Finite 496] nb = Inr [500 \<mapsto> 1, 496 \<mapsto> 2]"
    by (simp add: buildLevelIndex_def PresLevIndex_dictionary_cell astype_i4_whole
        numeral_2_eq_2)
  ultimately show ?thesis
    by (simp add: buildLevelIndex_def)
qed

text \<open>
  C3, witness: for the levels 500, 500, 496 the key of the position 0 is sent to the
  largest position that holds 500, which is 1.
\<close>

theorem buildLevelIndex_last_write_wins_witness:
  "\<exists>m. buildLevelIndex [Finite 500, Finite 500, Finite 496] fresh = Inr m \<and>
     m 500 = Some 1 \<and>
     Max {p. p < length [Finite 500, Finite 500, Finite 496] \<and>
             astype_i4 ([Finite 500, Finite 500, Finite 496] ! p) = 500} = 1"
proof -
  let ?L = "[Finite 500, Finite 500, Finite 496]"
  from buildLevelIndex_last_write_wins [of ?L fresh]
  obtain m where m: "buildLevelIndex ?L fresh = Inr m"
    "\<forall>i. i < length ?L \<longrightarrow> m (astype_i4 (?L ! i)) =
       Some (Max {p. p < length ?L \<and> astype_i4 (?L ! p) = astype_i4 (?L ! i)})"
    and b: "buildLevelIndex ?L fresh = Inr [500 \<mapsto> 1, 496 \<mapsto> 2]"
    by blast
  have "(0::nat) < length ?L" by simp
  with m(2) have "m (astype_i4 (?L ! 0)) =
       Some (Max {p. p < length ?L \<and> astype_i4 (?L ! p) = astype_i4 (?L ! 0)})"
    by blast
  then have e: "m 500 = Some (Max {p. p < length ?L \<and> astype_i4 (?L ! p) = 500})"
    by (simp add: astype_i4_whole)
  from m(1) b have "m = [500 \<mapsto> 1, 496 \<mapsto> 2]" by simp
  then have "m 500 = Some 1" by simp
  with e m(1) show ?thesis by auto
qed

text \<open>
  C6, counterexample: the specification lets \<open>buildLevelIndex\<close> fail with
  \<open>InvalidInput\<close> on the empty sequence. The cell has no such check: on an empty
  profile the loop body never runs and the dictionary stays empty.
\<close>

theorem buildLevelIndex_empty_counterexample:
  "buildLevelIndex [] fresh = Inr Map.empty"
  by (simp add: buildLevelIndex_def PresLevIndex_dictionary_cell)

text \<open>
  C6 (amended): \<open>buildLevelIndex\<close> succeeds on every sequence of levels. Its result is
  the empty mapping exactly when the sequence is empty.
\<close>

theorem buildLevelIndex_total:
  "\<exists>m. buildLevelIndex levels nb = Inr m \<and> (dom m = {} \<longleftrightarrow> levels = [])"
proof -
  have "dom (PresLevIndex (dictionary_cell levels nb)) = {} \<longleftrightarrow> levels = []"
    by (simp only: dom_dictionary_cell image_is_empty set_empty)
  then show ?thesis
    by (simp add: buildLevelIndex_def)
qed

text \<open>
  C7, counterexample: the levels 500.25 and 499.75 have the same rounded value 500, so
  by the specification the position 0 is overwritten and the value set is \<open>{1}\<close>. The
  cell files them under 500 and 499, and the position 0 stays in the mapping.
\<close>

theorem buildLevelIndex_values_counterexample:
  "buildLevelIndex [Finite (2001 / 4), Finite (1999 / 4)] fresh =
     Inr [500 \<mapsto> 0, 499 \<mapsto> 1] \<and>
   round (2001 / 4 :: rat) = 500 \<and> round (1999 / 4 :: rat) = 500 \<and>
   0 \<in> ran ([500 \<mapsto> 0, 499 \<mapsto> 1] :: int \<rightharpoonup> nat)"
proof -
  have "([500 \<mapsto> 0, 499 \<mapsto> 1] :: int \<rightharpoonup> nat) 500 = Some 0"
    by simp
  then have "0 \<in> ran ([500 \<mapsto> 0, 499 \<mapsto> 1] :: int \<rightharpoonup> nat)"
    by (rule ranI)
  then show ?thesis
    by (simp add: buildLevelIndex_def PresLevIndex_dictionary_cell astype_i4_fraction
        round_fraction)
qed

text \<open>
  C7 (amended): every index stored in the mapping is a position of the sequence, and the
  value set is exactly the set of positions that no later position with the same
  converted value (the 32-bit integer that the cell makes of a level) overwrites.
\<close>

theorem buildLevelIndex_values_surviving:
  "\<exists>m. buildLevelIndex levels nb = Inr m \<and>
     ran m \<subseteq> {0..<length levels} \<and>
     ran m = {i. i < length levels \<and>
                 (\<forall>j. i < j \<and> j < length levels \<longrightarrow>
                    astype_i4 (levels ! j) \<noteq> astype_i4 (levels ! i))}"
proof -
  have "ran (PresLevIndex (dictionary_cell levels nb)) =
      {i. i < length levels \<and>
          (\<forall>j. i < j \<and> j < length levels \<longrightarrow>
             astype_i4 (levels ! j) \<noteq> astype_i4 (levels ! i))}"
    by (auto simp: ran_def dictionary_cell_lookup)
  then show ?thesis
    by (auto simp: buildLevelIndex_def)
qed

text \<open>
  C7, witness: for the levels 500, 500, 496 the positions 1 and 2 survive, the position
  0 is overwritten, and 3 is no position.
\<close>

theorem buildLevelIndex_values_surviving_witness:
  "\<exists>m. buildLevelIndex [Finite 500, Finite 500, Finite 496] fresh = Inr m \<and>
     2 \<in> ran m \<and> 1 \<in> ran m \<and> 0 \<notin> ran m \<and> 3 \<notin> ran m"
proof -
  let ?L = "[Finite 500, Finite 500, Finite 496]"
  from buildLevelIndex_values_surviving [of ?L fresh]
  obtain m where m: "buildLevelIndex ?L fresh = Inr m"
    "ran m = {i. i < length ?L \<and>
                 (\<forall>j. i < j \<and> j < length ?L \<longrightarrow> astype_i4 (?L ! j) \<noteq> astype_i4 (?L ! i))}"
    by blast
  have j3: "j < 3 \<longleftrightarrow> j = 0 \<or> j = 1 \<or> j = 2" for j :: nat by auto
  have "2 \<in> ran m" unfolding m(2) by (simp add: j3)
  moreover have "1 \<in> ran m" unfolding m(2) by (auto simp: j3 astype_i4_whole)
  moreover have "0 \<notin> ran m" unfolding m(2)
    by (auto simp: j3 astype_i4_whole intro: exI [of _ 1])
  moreover have "3 \<notin> ran m" unfolding m(2) by simp
  ultimately show ?thesis using m(1) by blast
qed

text \<open>
  C8: \<open>buildLevelIndex\<close> is deterministic and idempotent. The cell resets the
  dictionary before its loop, so the mapping does not depend on what an earlier run left
  in the notebook: two runs on the same levels return the same mapping, from any two
  states and in particular the second from the state the first leaves, and the second
  run leaves the notebook as the first did.
\<close>

theorem buildLevelIndex_idempotent:
  "buildLevelIndex levels nb = buildLevelIndex levels nb' \<and>
   buildLevelIndex levels (dictionary_cell levels nb) = buildLevelIndex levels nb \<and>
   dictionary_cell levels (dictionary_cell levels nb) = dictionary_cell levels nb"
  by (simp add: buildLevelIndex_def PresLevIndex_dictionary_cell)
    (simp add: dictionary_cell_def)

text \<open>
  C10: every key of the built mapping is the integer that the construction makes of the
  level at the index stored under it. Hence a lookup of a rounded target that succeeds
  returns the position of a level whose integer conversion is the rounded target, and
  a lookup of any target that succeeds returns the position of a level whose integer
  conversion is that target, which is then its own rounding.
\<close>

theorem buildLevelIndex_key_consistent:
  "\<exists>m. buildLevelIndex levels nb = Inr m \<and>
     (\<forall>k i. m k = Some i \<longrightarrow> i < length levels \<and> astype_i4 (levels ! i) = k) \<and>
     (\<forall>i. nearestLevelIndex m (of_int (round target)) = Inr i \<longrightarrow>
        i < length levels \<and> astype_i4 (levels ! i) = round target) \<and>
     (\<forall>i. nearestLevelIndex m target = Inr i \<longrightarrow>
        i < length levels \<and> of_int (astype_i4 (levels ! i)) = target \<and>
        astype_i4 (levels ! i) = round target)"
proof -
  let ?m = "PresLevIndex (dictionary_cell levels nb)"
  have key: "i < length levels \<and> astype_i4 (levels ! i) = k" if "?m k = Some i" for k i
    using that by (simp add: dictionary_cell_lookup)
  have a: "i < length levels \<and> astype_i4 (levels ! i) = round target"
    if "nearestLevelIndex ?m (of_int (round target)) = Inr i" for i
  proof -
    from that have "?m (round target) = Some i"
      by (auto simp: nearestLevelIndex_of_int split: option.splits)
    then show ?thesis by (rule key)
  qed
  have b: "i < length levels \<and> of_int (astype_i4 (levels ! i)) = target \<and>
      astype_i4 (levels ! i) = round target"
    if "nearestLevelIndex ?m target = Inr i" for i
  proof -
    from that obtain k where k: "target = of_int k" "?m k = Some i"
      by (auto simp: nearestLevelIndex_Inr_iff)
    from key [OF k(2)] k(1) show ?thesis by simp
  qed
  from key a b show ?thesis
    unfolding buildLevelIndex_def by blast
qed

text \<open>
  C10, witness: among the levels 1000, 850, 500, 496, 300 the target 500 is found at
  the index 2, where the level 500 stands.
\<close>

theorem buildLevelIndex_key_consistent_witness:
  "\<exists>m. buildLevelIndex [Finite 1000, Finite 850, Finite 500, Finite 496, Finite 300] fresh =
       Inr m \<and>
     m 500 = Some 2 \<and> nearestLevelIndex m (of_int (round (500 :: rat))) = Inr 2 \<and>
     nearestLevelIndex m 500 = Inr 2 \<and>
     astype_i4 ([Finite 1000, Finite 850, Finite 500, Finite 496, Finite 300] ! 2) =
       round (500 :: rat)"
proof -
  let ?L = "[Finite 1000, Finite 850, Finite 500, Finite 496, Finite 300]"
  have b: "buildLevelIndex ?L fresh =
      Inr [1000 \<mapsto> 0, 850 \<mapsto> 1, 500 \<mapsto> 2, 496 \<mapsto> 3, 300 \<mapsto> 4]"
    by (simp add: buildLevelIndex_def PresLevIndex_dictionary_cell astype_i4_whole
        eval_nat_numeral)
  from buildLevelIndex_key_consistent [of ?L fresh 500]
  obtain m where m: "buildLevelIndex ?L fresh = Inr m"
    "\<forall>k i. m k = Some i \<longrightarrow> i < length ?L \<and> astype_i4 (?L ! i) = k"
    "\<forall>i. nearestLevelIndex m (of_int (round (500 :: rat))) = Inr i \<longrightarrow>
        i < length ?L \<and> astype_i4 (?L ! i) = round (500 :: rat)"
    "\<forall>i. nearestLevelIndex m 500 = Inr i \<longrightarrow>
        i < length ?L \<and> of_int (astype_i4 (?L ! i)) = (500 :: rat) \<and>
        astype_i4 (?L ! i) = round (500 :: rat)"
    by blast
  from m(1) b have "m = [1000 \<mapsto> 0, 850 \<mapsto> 1, 500 \<mapsto> 2, 496 \<mapsto> 3, 300 \<mapsto> 4]" by simp
  then have l: "m 500 = Some 2" by simp
  then have n: "nearestLevelIndex m (of_int (round (500 :: rat))) = Inr 2"
    "nearestLevelIndex m 500 = Inr 2"
    by (simp_all add: nearestLevelIndex_def)
  with m(3) have "astype_i4 (?L ! 2) = round (500 :: rat)" by blast
  moreover from n(2) m(4) have "astype_i4 (?L ! 2) = round (500 :: rat)" by blast
  ultimately show ?thesis using m(1) l n by blast
qed

subsection \<open>Repeating a coordinate\<close>

text \<open>
  C4: for a coordinate with one value per profile, \<open>broadcastCoordinate\<close> returns an
  array of the shape \<open>(profileCount, levelCount)\<close> whose entry in the row \<open>i\<close> and the
  column \<open>j\<close> is the value \<open>i\<close> of the coordinate. For the coordinate 10, 20, 30 and
  four levels the rows are four times 10, four times 20 and four times 30.
\<close>

theorem broadcastCoordinate_grid:
  assumes "length coordinate = profileCount"
  shows "(\<exists>g. broadcastCoordinate coordinate levelCount profileCount = Inr g \<and>
       shape g = (profileCount, levelCount) \<and>
       (\<forall>i j. i < profileCount \<and> j < levelCount \<longrightarrow>
          getitem g i j = Inr (coordinate ! i))) \<and>
    broadcastCoordinate [10, 20, 30 :: int] 4 3 =
      Inr \<lparr>shape = (3, 4), data = [10, 10, 10, 10, 20, 20, 20, 20, 30, 30, 30, 30]\<rparr>"
proof -
  let ?g = "\<lparr>shape = (profileCount, levelCount), data = np_repeat coordinate levelCount\<rparr>"
  have "broadcastCoordinate coordinate levelCount profileCount = Inr ?g"
    using assms by (simp add: broadcastCoordinate_def reshape_def length_np_repeat)
  moreover have "getitem ?g i j = Inr (coordinate ! i)"
    if "i < profileCount" "j < levelCount" for i j
    using that assms by (simp add: getitem_def nth_np_repeat)
  moreover have "broadcastCoordinate [10, 20, 30 :: int] 4 3 =
      Inr \<lparr>shape = (3, 4), data = [10, 10, 10, 10, 20, 20, 20, 20, 30, 30, 30, 30]\<rparr>"
    by (simp add: broadcastCoordinate_def reshape_def np_repeat_def eval_nat_numeral)
  ultimately show ?thesis by simp
qed

text \<open>
  C4, witness: the coordinate 10, 20, 30 with four levels; one entry of each row.
\<close>

theorem broadcastCoordinate_grid_witness:
  "\<exists>g. broadcastCoordinate [10, 20, 30 :: int] 4 3 = Inr g \<and> shape g = (3, 4) \<and>
     getitem g 0 3 = Inr 10 \<and> getitem g 1 0 = Inr 20 \<and> getitem g 2 2 = Inr 30"
proof -
  have h: "length [10, 20, 30 :: int] = 3" by simp
  from broadcastCoordinate_grid [OF h, of 4]
  obtain g where g: "broadcastCoordinate [10, 20, 30 :: int] 4 3 = Inr g" "shape g = (3, 4)"
    "\<forall>i j. i < 3 \<and> j < 4 \<longrightarrow> getitem g i j = Inr ([10, 20, 30 :: int] ! i)"
    by blast
  have "getitem g 0 3 = Inr ([10, 20, 30 :: int] ! 0)" using g(3) by simp
  moreover have "getitem g 1 0 = Inr ([10, 20, 30 :: int] ! 1)" using g(3) by simp
  moreover have "getitem g 2 2 = Inr ([10, 20, 30 :: int] ! 2)" using g(3) by simp
  ultimately show ?thesis using g(1,2) by simp
qed

text \<open>
  C5, counterexample: the specification lets \<open>broadcastCoordinate\<close> fail whenever the
  length of the coordinate is not \<open>profileCount\<close>. With no level at all the repeated
  array is empty and \<open>reshape\<close> accepts the shape \<open>(3, 0)\<close> for a coordinate of
  length 2.
\<close>

theorem broadcastCoordinate_mismatch_counterexample:
  "broadcastCoordinate [10, 20 :: int] 0 3 = Inr \<lparr>shape = (3, 0), data = []\<rparr>"
  by (simp add: broadcastCoordinate_def reshape_def np_repeat_def)

text \<open>
  C5 (amended): \<open>broadcastCoordinate\<close> fails with \<open>ShapeMismatch\<close> exactly when
  \<open>levelCount\<close> is not zero and the length of the coordinate is not \<open>profileCount\<close>;
  it succeeds exactly when \<open>levelCount\<close> is zero or the two agree. For the coordinate
  10, 20 with four levels and three profiles it fails.
\<close>

theorem broadcastCoordinate_fails_iff:
  "(broadcastCoordinate coordinate levelCount profileCount = Inl ShapeMismatch \<longleftrightarrow>
      levelCount \<noteq> 0 \<and> length coordinate \<noteq> profileCount) \<and>
   ((\<exists>g. broadcastCoordinate coordinate levelCount profileCount = Inr g) \<longleftrightarrow>
      levelCount = 0 \<or> length coordinate = profileCount) \<and>
   broadcastCoordinate [10, 20 :: int] 4 3 = Inl ShapeMismatch"
proof -
  have "broadcastCoordinate [10, 20 :: int] 4 3 = Inl ShapeMismatch"
    by (simp add: broadcastCoordinate_def reshape_def np_repeat_def)
  then show ?thesis
    by (auto simp: broadcastCoordinate_def reshape_def length_np_repeat)
qed

subsection \<open>Filtering by quality\<close>

text \<open>
  C9: the quality filter keeps exactly the profiles whose quality flag is the given
  value, each as often as it occurs and in the order of the swath, none of them masked,
  and no other profile. Of five profiles with the flags 0, 1, 0, 0, 1 the filter for the
  flag 0 keeps the three with the flag 0.
\<close>

theorem quality_filter_exact:
  "quality_filter flag swath = map Some (filter (\<lambda>p. Quality_Flag p = flag) swath) \<and>
   set (quality_filter flag swath) = Some ` {p. p \<in> set swath \<and> Quality_Flag p = flag} \<and>
   quality_filter 0
     [\<lparr>Quality_Flag = 0, variables = 0 :: nat\<rparr>, \<lparr>Quality_Flag = 1, variables = 1\<rparr>,
      \<lparr>Quality_Flag = 0, variables = 2\<rparr>, \<lparr>Quality_Flag = 0, variables = 3\<rparr>,
      \<lparr>Quality_Flag = 1, variables = 4\<rparr>] =
     [Some \<lparr>Quality_Flag = 0, variables = 0\<rparr>, Some \<lparr>Quality_Flag = 0, variables = 2\<rparr>,
      Some \<lparr>Quality_Flag = 0, variables = 3\<rparr>]"
proof -
  have "set (map Some (filter (\<lambda>p. Quality_Flag p = flag) swath)) =
      Some ` {p. p \<in> set swath \<and> Quality_Flag p = flag}"
    by auto
  then show ?thesis
    by (simp add: quality_filter_filter)
qed

end
